theory Spec2Isabelle
  imports Main "HOL-Library.Sublist"
begin

section \<open>Go strings and the library functions the generator calls\<close>

text \<open>
  A Go \<^verbatim>\<open>string\<close> is a sequence of bytes, so it is a \<^typ>\<open>string\<close> here: a list of
  8-bit characters. The functions of \<^verbatim>\<open>strings\<close>, \<^verbatim>\<open>bytes\<close>, \<^verbatim>\<open>unicode\<close> and \<^verbatim>\<open>bufio\<close>
  that \<^verbatim>\<open>parse.go\<close> calls are written out below from their documented behaviour, on bytes.
\<close>

text \<open>\<^verbatim>\<open>strings.Index(s, substr)\<close>: the byte offset of the first occurrence, Go's \<open>-1\<close> when
  there is none; the empty string occurs at offset 0.\<close>

fun indexOf :: "string \<Rightarrow> string \<Rightarrow> nat option" where
  "indexOf [] sub = (if sub = [] then Some 0 else None)"
| "indexOf (c # cs) sub =
     (if prefix sub (c # cs) then Some 0 else map_option Suc (indexOf cs sub))"

definition Index :: "string \<Rightarrow> string \<Rightarrow> int" where
  "Index s sub = (case indexOf s sub of None \<Rightarrow> -1 | Some n \<Rightarrow> int n)"

definition Contains :: "string \<Rightarrow> string \<Rightarrow> bool" where
  "Contains s sub = (Index s sub \<ge> 0)"

definition HasPrefix :: "string \<Rightarrow> string \<Rightarrow> bool" where
  "HasPrefix s p = prefix p s"

definition HasSuffix :: "string \<Rightarrow> string \<Rightarrow> bool" where
  "HasSuffix s p = suffix p s"

text \<open>\<^verbatim>\<open>strings.TrimLeft(s, cutset)\<close> and \<^verbatim>\<open>strings.TrimRight(s, cutset)\<close>, for the ASCII
  cutsets of the source (\<^verbatim>\<open>"*&"\<close>, \<^verbatim>\<open>"{}"\<close>, \<^verbatim>\<open>"\r\n"\<close>).\<close>

definition TrimLeft :: "string \<Rightarrow> string \<Rightarrow> string" where
  "TrimLeft s cutset = dropWhile (\<lambda>c. c \<in> set cutset) s"

definition TrimRight :: "string \<Rightarrow> string \<Rightarrow> string" where
  "TrimRight s cutset = rev (dropWhile (\<lambda>c. c \<in> set cutset) (rev s))"

text \<open>\<^verbatim>\<open>strings.Replace(s, old, new, 1)\<close>: the first occurrence of \<open>old\<close> is replaced; an
  empty \<open>old\<close> matches at the start of \<open>s\<close>; without an occurrence \<open>s\<close> is returned.\<close>

definition Replace1 :: "string \<Rightarrow> string \<Rightarrow> string \<Rightarrow> string" where
  "Replace1 s old new =
     (case indexOf s old of
        None \<Rightarrow> s
      | Some j \<Rightarrow> take j s @ new @ drop (j + length old) s)"

text \<open>\<^verbatim>\<open>strings.Replace(s, old, new, -1)\<close> for a non-empty \<open>old\<close>: every non-overlapping
  occurrence, left to right. The first argument counts the bytes of a matched \<open>old\<close> still
  to be skipped.\<close>

fun replaceFrom :: "nat \<Rightarrow> string \<Rightarrow> string \<Rightarrow> string \<Rightarrow> string" where
  "replaceFrom k [] old new = []"
| "replaceFrom (Suc k) (c # cs) old new = replaceFrom k cs old new"
| "replaceFrom 0 (c # cs) old new =
     (if prefix old (c # cs) then new @ replaceFrom (length old - 1) cs old new
      else c # replaceFrom 0 cs old new)"

definition ReplaceAll :: "string \<Rightarrow> string \<Rightarrow> string \<Rightarrow> string" where
  "ReplaceAll s old new = replaceFrom 0 s old new"

subsection \<open>Runes made from one byte\<close>

text \<open>The source converts single bytes to runes (\<^verbatim>\<open>rune(word[i-1])\<close>), so the rune is a
  code point below 256 and the \<^verbatim>\<open>unicode\<close> predicates are those of the Latin-1 table.\<close>

definition IsLetter :: "char \<Rightarrow> bool" where
  "IsLetter c = (let n = (of_char c :: nat) in
     (65 \<le> n \<and> n \<le> 90) \<or> (97 \<le> n \<and> n \<le> 122) \<or> n = 170 \<or> n = 181 \<or> n = 186 \<or>
     (192 \<le> n \<and> n \<le> 214) \<or> (216 \<le> n \<and> n \<le> 246) \<or> (248 \<le> n \<and> n \<le> 255))"

definition IsDigit :: "char \<Rightarrow> bool" where
  "IsDigit c = (let n = (of_char c :: nat) in 48 \<le> n \<and> n \<le> 57)"

definition IsUpper :: "char \<Rightarrow> bool" where
  "IsUpper c = (let n = (of_char c :: nat) in
     (65 \<le> n \<and> n \<le> 90) \<or> (192 \<le> n \<and> n \<le> 214) \<or> (216 \<le> n \<and> n \<le> 222))"

text \<open>\<^verbatim>\<open>isAlphaNumeric\<close> gets whether the rune is alphanumeric or \<open>_\<close>.\<close>

definition isAlphaNumeric :: "char \<Rightarrow> bool" where
  "isAlphaNumeric r = (r = CHR ''_'' \<or> IsLetter r \<or> IsDigit r)"

text \<open>\<^verbatim>\<open>strings.ToUpper(string(s[0]))\<close>: the byte becomes the code point of the same number,
  \<^verbatim>\<open>unicode.ToUpper\<close> maps it, and the result is written in UTF-8 (two bytes from 128 on).\<close>

definition upperRune :: "nat \<Rightarrow> nat" where
  "upperRune n =
     (if 97 \<le> n \<and> n \<le> 122 then n - 32
      else if n = 181 then 924
      else if (224 \<le> n \<and> n \<le> 246) \<or> (248 \<le> n \<and> n \<le> 254) then n - 32
      else if n = 255 then 376
      else n)"

definition encodeRune :: "nat \<Rightarrow> string" where
  "encodeRune n =
     (if n < 128 then [char_of n]
      else [char_of (192 + n div 64), char_of (128 + n mod 64)])"

definition ToUpperByte :: "char \<Rightarrow> string" where
  "ToUpperByte c = encodeRune (upperRune (of_char c))"

section \<open>Errors\<close>

text \<open>The three error values \<^verbatim>\<open>Generics\<close> returns, and the run-time panic of an index out
  of range, which ends the call without a return value.\<close>

datatype error =
    errSource string
  | errMissingSpecificType string
  | errImports string
  | panicIndexOutOfRange

section \<open>wordify and typify\<close>

text \<open>\<^verbatim>\<open>wordify\<close> turns a type into a word for function and type names; a spec of the form
  \<^verbatim>\<open><Title>:<Type>\<close> gives \<^verbatim>\<open><Title>\<close>. \<^verbatim>\<open>s[0]\<close> on the empty string panics.\<close>

definition wordify :: "string \<Rightarrow> bool \<Rightarrow> error + string" where
  "wordify s exported =
     (let sepIdx = Index s '':'' in
      if sepIdx \<ge> 0 then Inr (take (nat sepIdx) s)
      else
        let s1 = TrimRight s ''{}'';
            s2 = TrimLeft s1 ''*&'';
            s3 = ReplaceAll s2 ''.'' ''''
        in if \<not> exported then Inr s3
           else (case s3 of
                   [] \<Rightarrow> Inl panicIndexOutOfRange
                 | c # cs \<Rightarrow> Inr (ToUpperByte c @ cs)))"

text \<open>\<^verbatim>\<open>typify\<close> gets the type name: the part after \<open>:\<close> if there is one, else the string.\<close>

definition typify :: "string \<Rightarrow> string" where
  "typify s =
     (let sepIdx = Index s '':'' in
      if sepIdx \<ge> 0 then drop (nat (sepIdx + 1)) s else s)"


section \<open>Splitting into words and lines\<close>

text \<open>\<^verbatim>\<open>unicode.IsSpace\<close> on the UTF-8 text of a string: \<open>spaceWidth s\<close> is the number of bytes
  of the white-space rune that \<open>s\<close> starts with, and 0 when it starts with none. The white
  space runes are U+0009 to U+000D, U+0020, U+0085, U+00A0, U+1680, U+2000 to U+200A, U+2028,
  U+2029, U+202F, U+205F and U+3000. Their first bytes are never continuation bytes, so
  looking for them byte by byte finds exactly the runes Go decodes.\<close>

definition isSpace3 :: "nat \<Rightarrow> nat \<Rightarrow> nat \<Rightarrow> bool" where
  "isSpace3 a b c =
     ((a = 225 \<and> b = 154 \<and> c = 128) \<or>
      (a = 226 \<and> b = 128 \<and> ((128 \<le> c \<and> c \<le> 138) \<or> c = 168 \<or> c = 169 \<or> c = 175)) \<or>
      (a = 226 \<and> b = 129 \<and> c = 159) \<or>
      (a = 227 \<and> b = 128 \<and> c = 128))"

definition spaceWidth :: "string \<Rightarrow> nat" where
  "spaceWidth s =
     (case s of
        [] \<Rightarrow> 0
      | c # r \<Rightarrow>
          (let n = (of_char c :: nat) in
           if (9 \<le> n \<and> n \<le> 13) \<or> n = 32 then 1
           else if n = 194 then
             (case r of
                [] \<Rightarrow> 0
              | d # _ \<Rightarrow> if (of_char d :: nat) = 133 \<or> (of_char d :: nat) = 160 then 2 else 0)
           else
             (case r of
                d # e # _ \<Rightarrow> if isSpace3 n (of_char d) (of_char e) then 3 else 0
              | _ \<Rightarrow> 0)))"

text \<open>\<^verbatim>\<open>strings.Fields(s)\<close>: the maximal runs of bytes between white space. The first
  argument counts the bytes of a white-space rune still to be skipped, the second is the
  field being read.\<close>

fun fieldsFrom :: "nat \<Rightarrow> string \<Rightarrow> string \<Rightarrow> string list" where
  "fieldsFrom k cur [] = (if cur = [] then [] else [cur])"
| "fieldsFrom (Suc k) cur (c # cs) = fieldsFrom k cur cs"
| "fieldsFrom 0 cur (c # cs) =
     (let w = spaceWidth (c # cs) in
      if w > 0 then (if cur = [] then [] else [cur]) @ fieldsFrom (w - 1) [] cs
      else fieldsFrom 0 (cur @ [c]) cs)"

definition Fields :: "string \<Rightarrow> string list" where
  "Fields s = fieldsFrom 0 [] s"

text \<open>\<^verbatim>\<open>strings.TrimSpace(s)\<close>: leading and trailing white space removed.\<close>

fun dropSpaces :: "nat \<Rightarrow> string \<Rightarrow> string" where
  "dropSpaces k [] = []"
| "dropSpaces (Suc k) (c # cs) = dropSpaces k cs"
| "dropSpaces 0 (c # cs) =
     (let w = spaceWidth (c # cs) in if w > 0 then dropSpaces (w - 1) cs else c # cs)"

definition spaceWidthRev :: "string \<Rightarrow> nat" where
  "spaceWidthRev r =
     (if length r \<ge> 1 \<and> spaceWidth (take 1 r) = 1 then 1
      else if length r \<ge> 2 \<and> spaceWidth (rev (take 2 r)) = 2 then 2
      else if length r \<ge> 3 \<and> spaceWidth (rev (take 3 r)) = 3 then 3
      else 0)"

fun dropSpacesRev :: "nat \<Rightarrow> string \<Rightarrow> string" where
  "dropSpacesRev k [] = []"
| "dropSpacesRev (Suc k) (c # cs) = dropSpacesRev k cs"
| "dropSpacesRev 0 (c # cs) =
     (let w = spaceWidthRev (c # cs) in if w > 0 then dropSpacesRev (w - 1) cs else c # cs)"

definition TrimSpace :: "string \<Rightarrow> string" where
  "TrimSpace s = rev (dropSpacesRev 0 (rev (dropSpaces 0 s)))"

text \<open>\<^verbatim>\<open>strings.Split(s, " ")\<close> and \<^verbatim>\<open>strings.Join(parts, " ")\<close>.\<close>

fun splitOn :: "char \<Rightarrow> string \<Rightarrow> string \<Rightarrow> string list" where
  "splitOn sep cur [] = [cur]"
| "splitOn sep cur (c # cs) =
     (if c = sep then cur # splitOn sep [] cs else splitOn sep (cur @ [c]) cs)"

definition Split :: "string \<Rightarrow> char \<Rightarrow> string list" where
  "Split s sep = splitOn sep [] s"

fun Join :: "string list \<Rightarrow> string \<Rightarrow> string" where
  "Join [] sep = []"
| "Join [p] sep = p"
| "Join (p # q # ps) sep = p @ sep @ Join (q # ps) sep"

text \<open>\<^verbatim>\<open>bufio.Scanner\<close> with the default split function \<^verbatim>\<open>ScanLines\<close>: the text is cut at
  each \<open>\n\<close>, a last line without \<open>\n\<close> counts when it is not empty, and one \<open>\r\<close> at the end
  of a line is dropped. The scanner's buffer holds \<^verbatim>\<open>MaxScanTokenSize\<close> = 64 * 1024 bytes: at
  the first line that does not fit with its line end, \<^verbatim>\<open>Scan\<close> returns false and the loops
  of the source, which never look at \<^verbatim>\<open>scanner.Err()\<close>, end there.\<close>

fun rawLines :: "string \<Rightarrow> string \<Rightarrow> string list" where
  "rawLines cur [] = (if cur = [] then [] else [cur])"
| "rawLines cur (c # cs) =
     (if c = CHR 0x0A then cur # rawLines [] cs else rawLines (cur @ [c]) cs)"

definition dropCR :: "string \<Rightarrow> string" where
  "dropCR l = (if l \<noteq> [] \<and> last l = CHR 0x0D then butlast l else l)"

definition MaxScanTokenSize :: int where
  "MaxScanTokenSize = 64 * 1024"

definition scanLines :: "string \<Rightarrow> string list" where
  "scanLines inp =
     map dropCR (takeWhile (\<lambda>l. int (length l) < MaxScanTokenSize) (rawLines [] inp))"

text \<open>\<^verbatim>\<open>line(s)\<close> is \<^verbatim>\<open>fmt.Sprintln(strings.TrimRight(s, linefeed))\<close>.\<close>

definition linefeed :: string where
  "linefeed = [CHR 0x0D, CHR 0x0A]"

definition Sprintln :: "string \<Rightarrow> string" where
  "Sprintln s = s @ [CHR 0x0A]"

definition line :: "string \<Rightarrow> string" where
  "line s = Sprintln (TrimRight s linefeed)"

section \<open>The substitution of one placeholder in one word\<close>

text \<open>The loop \<^verbatim>\<open>for { i = strings.Index(word[i:], t) ... }\<close> of \<^verbatim>\<open>generateSpecific\<close>. The
  index found is an offset into \<^verbatim>\<open>word[i:]\<close> and is stored in \<open>i\<close> as it is; \<^verbatim>\<open>strings.Replace\<close>
  rewrites the first occurrence in the whole word. The loop ends when \<open>t\<close> is not found from
  offset \<open>i\<close> on, which need not happen: \<open>None\<close> is the run that never ends.
  \<^verbatim>\<open>strings.TrimLeft(word, "*&")[0]\<close> panics on an empty string, \<^verbatim>\<open>wordify\<close> can panic too.
  \<open>i < length word - length t\<close> is Go's \<^verbatim>\<open>i < len(word)-len(t)\<close>: when the difference is
  negative in Go, both are false.\<close>

partial_function (option) replaceLoop ::
  "string \<Rightarrow> string \<Rightarrow> string \<Rightarrow> nat \<Rightarrow> (error + string) option" where
  "replaceLoop t specificType word i =
     (case indexOf (drop i word) t of
        None \<Rightarrow> Some (Inr word)
      | Some j \<Rightarrow>
          if (j > 0 \<and> isAlphaNumeric (word ! (j - 1))) \<or>
             (j < length word - length t \<and> isAlphaNumeric (word ! (j + length t)))
          then
            (case TrimLeft word ''*&'' of
               [] \<Rightarrow> Some (Inl panicIndexOutOfRange)
             | c # _ \<Rightarrow>
                 (case wordify specificType (IsUpper c) of
                    Inl e \<Rightarrow> Some (Inl e)
                  | Inr w \<Rightarrow> replaceLoop t specificType (Replace1 word t w) j))
          else replaceLoop t specificType (Replace1 word t (typify specificType)) j)"

declare replaceLoop.simps [code]

section \<open>One template against one set of types\<close>

text \<open>The constants of \<^verbatim>\<open>parse.go\<close>.\<close>

definition space :: string where "space = '' ''"
definition genericPackage :: string where "genericPackage = ''generic''"
definition genericType :: string where "genericType = ''generic.Type''"
definition genericNumber :: string where "genericNumber = ''generic.Number''"
definition packageKeyword :: string where "packageKeyword = ''package''"
definition importKeyword :: string where "importKeyword = ''import''"
definition openBrace :: string where "openBrace = ''(''"
definition closeBrace :: string where "closeBrace = '')''"

definition header :: string where
  "header = [CHR 0x0A, CHR 0x0A]
     @ ''// This file was automatically generated by genny.'' @ [CHR 0x0A]
     @ ''// Any changes will be lost if this file is regenerated.'' @ [CHR 0x0A]
     @ ''// see https://github.com/mauricelam/genny'' @ [CHR 0x0A, CHR 0x0A]"

definition unwantedLinePrefixes :: "string list" where
  "unwantedLinePrefixes = [''//go:generate genny '', ''//go:generate $GOPATH/bin/genny '']"

text \<open>A \<^verbatim>\<open>map[string]string\<close> is an association list with distinct keys; its order is the
  order in which \<^verbatim>\<open>range\<close> visits the keys, which Go leaves open (it may differ from one
  \<^verbatim>\<open>range\<close> statement to the next; here one order serves all the lines of a run).
  \<^verbatim>\<open>typeSet[k]\<close> is \<^term>\<open>map_of typeSet k\<close>.\<close>

type_synonym typeSet = "(string \<times> string) list"

text \<open>The words of a line, each rewritten by \<^const>\<open>replaceLoop\<close> and followed by a space.\<close>

fun replaceWords :: "string \<Rightarrow> string \<Rightarrow> string list \<Rightarrow> string \<Rightarrow> (error + string) option" where
  "replaceWords t specificType [] newLine = Some (Inr newLine)"
| "replaceWords t specificType (word # ws) newLine =
     (case replaceLoop t specificType word 0 of
        None \<Rightarrow> None
      | Some (Inl e) \<Rightarrow> Some (Inl e)
      | Some (Inr w) \<Rightarrow> replaceWords t specificType ws (newLine @ w @ space))"

text \<open>\<^verbatim>\<open>for t, specificType := range typeSet\<close>: a line that contains \<open>t\<close> is rebuilt from its
  words, and the next type sees the rebuilt line.\<close>

fun replaceTypes :: "typeSet \<Rightarrow> string \<Rightarrow> (error + string) option" where
  "replaceTypes [] l = Some (Inr l)"
| "replaceTypes ((t, specificType) # rest) l =
     (if Contains l t then
        (case replaceWords t specificType (Fields l) [] of
           None \<Rightarrow> None
         | Some (Inl e) \<Rightarrow> Some (Inl e)
         | Some (Inr newLine) \<Rightarrow> replaceTypes rest newLine)
      else replaceTypes rest l)"

text \<open>The two regular expressions. \<open>\s\<close> is \<^verbatim>\<open>[\t\n\f\r ]\<close> and \<open>\w\<close> is \<^verbatim>\<open>[0-9A-Za-z_]\<close>;
  both expressions are anchored at the start of the line, and the classes that follow
  one another are disjoint, so each repetition takes all the bytes it can.\<close>

definition reSpace :: "char \<Rightarrow> bool" where
  "reSpace c = (c = CHR 0x09 \<or> c = CHR 0x0A \<or> c = CHR 0x0C \<or> c = CHR 0x0D \<or> c = CHR '' '')"

definition reWord :: "char \<Rightarrow> bool" where
  "reWord c = (let n = (of_char c :: nat) in
     (48 \<le> n \<and> n \<le> 57) \<or> (65 \<le> n \<and> n \<le> 90) \<or> (97 \<le> n \<and> n \<le> 122) \<or> n = 95)"

definition reInterfaceBegin :: "string \<Rightarrow> bool" where
  "reInterfaceBegin l =
     (let r1 = dropWhile reSpace l;
          r2 = drop 4 r1;
          r3 = dropWhile reSpace r2;
          r4 = dropWhile reWord r3;
          r5 = dropWhile reSpace r4;
          r6 = dropWhile reSpace (drop 9 r5)
      in prefix ''type'' r1 \<and> r3 \<noteq> r2 \<and> r4 \<noteq> r3 \<and> r5 \<noteq> r4 \<and>
         prefix ''interface'' r5 \<and> prefix ''{'' r6)"

definition reInterfaceEnd :: "string \<Rightarrow> bool" where
  "reInterfaceEnd l = prefix ''}'' (dropWhile reSpace l)"

text \<open>The parsed file, as far as \<^verbatim>\<open>generateSpecific\<close> looks into it: the declarations, the
  specs of a \<^verbatim>\<open>GenDecl\<close>, the name and the type expression of a \<^verbatim>\<open>TypeSpec\<close>.\<close>

datatype expr = Ident string | SelectorExpr expr string | OtherExpr

datatype spec = TypeSpec string expr | OtherSpec

datatype decl = GenDecl "spec list" | OtherDecl

type_synonym astFile = "decl list"

text \<open>Every type declared as \<^verbatim>\<open>generic.\<close>something must be a key of the type set; the first
  one that is not is reported.\<close>

fun checkSpecs :: "spec list \<Rightarrow> typeSet \<Rightarrow> error option" where
  "checkSpecs [] typeSet = None"
| "checkSpecs (TypeSpec name (SelectorExpr (Ident x) sel) # specs) typeSet =
     (if x = genericPackage \<and> map_of typeSet name = None
      then Some (errMissingSpecificType name)
      else checkSpecs specs typeSet)"
| "checkSpecs (sp # specs) typeSet = checkSpecs specs typeSet"

fun checkDecls :: "decl list \<Rightarrow> typeSet \<Rightarrow> error option" where
  "checkDecls [] typeSet = None"
| "checkDecls (GenDecl specs # decls) typeSet =
     (case checkSpecs specs typeSet of
        Some e \<Rightarrow> Some e
      | None \<Rightarrow> checkDecls decls typeSet)"
| "checkDecls (OtherDecl # decls) typeSet = checkDecls decls typeSet"

text \<open>The variables of the line loop.\<close>

record scanState =
  buf :: string
  comment :: string
  interfaceLines :: "string list"
  interfaceContainsType :: bool

definition initState :: scanState where
  "initState = \<lparr>buf = [], comment = [], interfaceLines = [], interfaceContainsType = False\<rparr>"

text \<open>The body of \<^verbatim>\<open>for scanner.Scan()\<close>, for the line \<open>l\<close>.\<close>

definition scanStep :: "typeSet \<Rightarrow> scanState \<Rightarrow> string \<Rightarrow> (error + scanState) option" where
  "scanStep typeSet st l =
     (let st1 = (if reInterfaceBegin l then st\<lparr>interfaceLines := [l]\<rparr> else st) in
      if interfaceLines st1 \<noteq> [] \<and> reInterfaceEnd l then
        Some (Inr (st1\<lparr>buf := (if \<not> interfaceContainsType st1
                                 then buf st1 @ concat (interfaceLines st1 @ [l])
                                 else buf st1),
                       interfaceLines := [], interfaceContainsType := False\<rparr>))
      else if Contains l genericType \<or> Contains l genericNumber then
        Some (Inr (st1\<lparr>comment := [],
                       interfaceContainsType :=
                         (if interfaceLines st1 \<noteq> [] then True else interfaceContainsType st1)\<rparr>))
      else
        (case replaceTypes typeSet l of
           None \<Rightarrow> None
         | Some (Inl e) \<Rightarrow> Some (Inl e)
         | Some (Inr l') \<Rightarrow>
             (let st2 = (if comment st1 \<noteq> []
                         then st1\<lparr>buf := buf st1 @ line (comment st1), comment := []\<rparr>
                         else st1) in
              if HasPrefix l' ''//'' then Some (Inr (st2\<lparr>comment := l'\<rparr>))
              else if interfaceLines st2 \<noteq> []
                then Some (Inr (st2\<lparr>interfaceLines := interfaceLines st2 @ [l']\<rparr>))
              else Some (Inr (st2\<lparr>buf := buf st2 @ line l'\<rparr>)))))"

fun scanLoop :: "typeSet \<Rightarrow> string list \<Rightarrow> scanState \<Rightarrow> (error + scanState) option" where
  "scanLoop typeSet [] st = Some (Inr st)"
| "scanLoop typeSet (l # ls) st =
     (case scanStep typeSet st l of
        None \<Rightarrow> None
      | Some (Inl e) \<Rightarrow> Some (Inl e)
      | Some (Inr st') \<Rightarrow> scanLoop typeSet ls st')"

text \<open>\<^verbatim>\<open>generateSpecific\<close>. The Go parser is a parameter: \<open>parse filename src\<close> is the
  diagnostic of \<^verbatim>\<open>parser.ParseFile\<close> or the parsed file. \<open>inp\<close> is the whole content of the
  seekable reader, read from its start both times.\<close>

definition generateSpecific ::
  "(string \<Rightarrow> string \<Rightarrow> string + astFile) \<Rightarrow> string \<Rightarrow> string \<Rightarrow> typeSet \<Rightarrow> (error + string) option" where
  "generateSpecific parse filename inp typeSet =
     (case parse filename inp of
        Inl err \<Rightarrow> Some (Inl (errSource err))
      | Inr f \<Rightarrow>
          (case checkDecls f typeSet of
             Some e \<Rightarrow> Some (Inl e)
           | None \<Rightarrow>
               (case scanLoop typeSet (scanLines inp) initState of
                  None \<Rightarrow> None
                | Some (Inl e) \<Rightarrow> Some (Inl e)
                | Some (Inr st) \<Rightarrow> Some (Inr (buf st)))))"


section \<open>All the type sets, merged into one file\<close>

text \<open>The first loop of \<^verbatim>\<open>Generics\<close>: the outputs of \<^verbatim>\<open>generateSpecific\<close>, appended in the
  order of \<open>typeSets\<close>; the first error ends the call.\<close>

fun generateAll ::
  "(string \<Rightarrow> string \<Rightarrow> string + astFile) \<Rightarrow> string \<Rightarrow> string \<Rightarrow> typeSet list \<Rightarrow> string
     \<Rightarrow> (error + string) option" where
  "generateAll parse filename inp [] totalOutput = Some (Inr totalOutput)"
| "generateAll parse filename inp (typeSet # rest) totalOutput =
     (case generateSpecific parse filename inp typeSet of
        None \<Rightarrow> None
      | Some (Inl err) \<Rightarrow> Some (Inl err)
      | Some (Inr parsed) \<Rightarrow> generateAll parse filename inp rest (totalOutput @ parsed))"

text \<open>Modelled from the spec: the type \<^verbatim>\<open>stringArraySet\<close> and its method \<^verbatim>\<open>append\<close> are
  declared in a file of the package that is not among the sources. The spec calls it a
  deduplicated, order-preserving set of import entries (insertion order kept, membership
  checked): an entry that is already there is not added again.\<close>

definition stringArraySet_append :: "string list \<Rightarrow> string \<Rightarrow> string list" where
  "stringArraySet_append s str = (if str \<in> set s then s else s @ [str])"

record cleanState =
  packageFound :: bool
  insideImportBlock :: bool
  packageLine :: string
  collectedImports :: "string list"
  outputLines :: "string list"

definition initClean :: cleanState where
  "initClean = \<lparr>packageFound = False, insideImportBlock = False, packageLine = [],
                 collectedImports = [], outputLines = []\<rparr>"

definition localUnwantedLinePrefixes :: "string \<Rightarrow> string list" where
  "localUnwantedLinePrefixes stripTag =
     unwantedLinePrefixes @ (if stripTag \<noteq> [] then [''// +build '' @ stripTag] else [])"

text \<open>The body of the clean-up loop for the line \<open>text\<close>. \<^verbatim>\<open>importLine[6:]\<close> panics on a
  string of fewer than 6 bytes.\<close>

definition cleanStep :: "string list \<Rightarrow> cleanState \<Rightarrow> string \<Rightarrow> error + cleanState" where
  "cleanStep ulps st text =
     (if insideImportBlock st then
        (if HasSuffix text closeBrace then Inr (st\<lparr>insideImportBlock := False\<rparr>)
         else Inr (st\<lparr>collectedImports := stringArraySet_append (collectedImports st) (line text)\<rparr>))
      else if HasPrefix text packageKeyword then
        (if packageFound st then Inr st
         else Inr (st\<lparr>packageFound := True, packageLine := line text\<rparr>))
      else if HasPrefix text importKeyword then
        (if HasSuffix text openBrace then Inr (st\<lparr>insideImportBlock := True\<rparr>)
         else
           (let importLine = TrimSpace (line text) in
            if length importLine < 6 then Inl panicIndexOutOfRange
            else
              (let importLine' = TrimSpace (drop 6 importLine) in
               Inr (st\<lparr>collectedImports := stringArraySet_append (collectedImports st) importLine'\<rparr>))))
      else if list_ex (\<lambda>p. HasPrefix text p) ulps then Inr st
      else Inr (st\<lparr>outputLines := outputLines st @ [line text]\<rparr>))"

fun cleanLoop :: "string list \<Rightarrow> string list \<Rightarrow> cleanState \<Rightarrow> error + cleanState" where
  "cleanLoop ulps [] st = Inr st"
| "cleanLoop ulps (text # rest) st =
     (case cleanStep ulps st text of
        Inl e \<Rightarrow> Inl e
      | Inr st' \<Rightarrow> cleanLoop ulps rest st')"

text \<open>\<^verbatim>\<open>cleanOutputLines\<close> joined: the header, the package line, one import block with the
  collected imports, the lines kept.\<close>

definition cleanOutput :: "cleanState \<Rightarrow> string" where
  "cleanOutput st =
     concat ([header, packageLine st, Sprintln ''import ('']
             @ map Sprintln (collectedImports st)
             @ [Sprintln '')'']
             @ outputLines st)"

text \<open>\<^verbatim>\<open>changePackage\<close>: on the first line that starts with \<^verbatim>\<open>package\<close>, the second of the
  parts between single spaces becomes \<open>pkgName\<close>; \<^verbatim>\<open>parts[1]\<close> panics when there is one part.\<close>

fun changePackageLoop :: "string list \<Rightarrow> string \<Rightarrow> bool \<Rightarrow> string \<Rightarrow> error + string" where
  "changePackageLoop [] pkgName done out = Inr out"
| "changePackageLoop (s # rest) pkgName done out =
     (if \<not> done \<and> HasPrefix s ''package'' then
        (let parts = Split s CHR '' '' in
         if length parts \<le> 1 then Inl panicIndexOutOfRange
         else changePackageLoop rest pkgName True
                (out @ Sprintln (Join (parts[1 := pkgName]) '' '')))
      else changePackageLoop rest pkgName done (out @ Sprintln s))"

definition changePackage :: "string \<Rightarrow> string \<Rightarrow> error + string" where
  "changePackage r pkgName = changePackageLoop (scanLines r) pkgName False []"

text \<open>\<^verbatim>\<open>addImports\<close>: after the first line that starts with \<^verbatim>\<open>package\<close>, one import
  declaration for each path.\<close>

definition importDecl :: "string \<Rightarrow> string" where
  "importDecl imp = ''import '' @ [CHR 0x22] @ imp @ [CHR 0x22, CHR 0x0A]"

fun addImportsLoop :: "string list \<Rightarrow> string list \<Rightarrow> bool \<Rightarrow> string \<Rightarrow> string" where
  "addImportsLoop [] importPaths done out = out"
| "addImportsLoop (s # rest) importPaths done out =
     (if \<not> done \<and> HasPrefix s ''package'' then
        addImportsLoop rest importPaths True
          (out @ Sprintln s @ concat (map importDecl importPaths))
      else addImportsLoop rest importPaths done (out @ Sprintln s))"

definition addImports :: "string \<Rightarrow> string list \<Rightarrow> string" where
  "addImports r importPaths = addImportsLoop (scanLines r) importPaths False []"

text \<open>The steps after the merge: the package name, the extra imports, and
  \<^verbatim>\<open>imports.Process\<close> of \<^verbatim>\<open>golang.org/x/tools\<close>, which is a parameter: \<open>process filename src\<close>
  is its diagnostic or the formatted bytes.\<close>

definition postProcess ::
  "(string \<Rightarrow> string \<Rightarrow> string + string) \<Rightarrow> string \<Rightarrow> string \<Rightarrow> string list \<Rightarrow> string
     \<Rightarrow> error + string" where
  "postProcess process filename pkgName importPaths output =
     (case (if pkgName \<noteq> [] then changePackage output pkgName else Inr output) of
        Inl e \<Rightarrow> Inl e
      | Inr output1 \<Rightarrow>
          (let output2 = (if importPaths \<noteq> [] then addImports output1 importPaths else output1) in
           case process filename output2 of
             Inl err \<Rightarrow> Inl (errImports err)
           | Inr output3 \<Rightarrow> Inr output3))"

text \<open>\<^verbatim>\<open>Generics\<close> parses the source file and generates the bytes replacing the generic
  types for the keys of each map with the specific types. \<open>mergeSpecifics\<close> is its first
  part, up to \<^verbatim>\<open>cleanOutput\<close>; the second part is \<^const>\<open>postProcess\<close>.\<close>

definition mergeSpecifics ::
  "(string \<Rightarrow> string \<Rightarrow> string + astFile) \<Rightarrow> string \<Rightarrow> string \<Rightarrow> typeSet list \<Rightarrow> string
     \<Rightarrow> (error + string) option" where
  "mergeSpecifics parse filename inp typeSets stripTag =
     (case generateAll parse filename inp typeSets [] of
        None \<Rightarrow> None
      | Some (Inl err) \<Rightarrow> Some (Inl err)
      | Some (Inr totalOutput) \<Rightarrow>
          (case cleanLoop (localUnwantedLinePrefixes stripTag) (scanLines totalOutput) initClean of
             Inl e \<Rightarrow> Some (Inl e)
           | Inr st \<Rightarrow> Some (Inr (cleanOutput st))))"

definition Generics ::
  "(string \<Rightarrow> string \<Rightarrow> string + astFile) \<Rightarrow> (string \<Rightarrow> string \<Rightarrow> string + string)
     \<Rightarrow> string \<Rightarrow> string \<Rightarrow> string \<Rightarrow> typeSet list \<Rightarrow> string list \<Rightarrow> string
     \<Rightarrow> (error + string) option" where
  "Generics parse process filename pkgName inp typeSets importPaths stripTag =
     (case mergeSpecifics parse filename inp typeSets stripTag of
        None \<Rightarrow> None
      | Some (Inl err) \<Rightarrow> Some (Inl err)
      | Some (Inr output) \<Rightarrow> Some (postProcess process filename pkgName importPaths output))"


section \<open>The words of the specification\<close>

text \<open>The decoration that wordification strips from a spec without a label: the braces at
  its end, the \<open>*\<close> and \<open>&\<close> at its start, and every dot.\<close>

definition stripDecoration :: "string \<Rightarrow> string" where
  "stripDecoration s =
     filter (\<lambda>c. c \<noteq> CHR ''.'')
       (dropWhile (\<lambda>c. c = CHR ''*'' \<or> c = CHR ''&'')
          (rev (dropWhile (\<lambda>c. c = CHR ''{'' \<or> c = CHR ''}'') (rev s))))"

text \<open>The placeholders a template declares: the names of the types defined as a selector
  into the reserved \<open>generic\<close> namespace, in the order of their declarations.\<close>

fun isPlaceholderSpec :: "spec \<Rightarrow> bool" where
  "isPlaceholderSpec (TypeSpec name (SelectorExpr (Ident x) sel)) = (x = ''generic'')"
| "isPlaceholderSpec sp = False"

fun specName :: "spec \<Rightarrow> string" where
  "specName (TypeSpec name ty) = name"
| "specName OtherSpec = []"

fun declSpecs :: "decl \<Rightarrow> spec list" where
  "declSpecs (GenDecl specs) = specs"
| "declSpecs OtherDecl = []"

definition declaredPlaceholders :: "astFile \<Rightarrow> string list" where
  "declaredPlaceholders f = map specName (filter isPlaceholderSpec (concat (map declSpecs f)))"

text \<open>The first declared placeholder that is not a key of the binding set.\<close>

definition firstUnbound :: "astFile \<Rightarrow> typeSet \<Rightarrow> string option" where
  "firstUnbound f typeSet = find (\<lambda>n. n \<notin> fst ` set typeSet) (declaredPlaceholders f)"




section \<open>Example inputs\<close>

text \<open>A parser that answers with a given file, and a formatter that returns the bytes it
  is given: stand-ins for \<^verbatim>\<open>parser.ParseFile\<close> and \<^verbatim>\<open>imports.Process\<close> on the examples.\<close>

definition parseAs :: "astFile \<Rightarrow> string \<Rightarrow> string \<Rightarrow> string + astFile" where
  "parseAs f filename src = Inr f"


text \<open>The template \<^verbatim>\<open>parse/test/numbers/generic_number.go\<close> and its declarations: an import,
  the placeholder \<^verbatim>\<open>NumberType\<close>, a function.\<close>

definition numbersTemplate :: string where
  "numbersTemplate = concat (map Sprintln
     [''package numbers'',
      [],
      ''import '' @ [CHR 0x22] @ ''github.com/olegch/genny/generic'' @ [CHR 0x22],
      [],
      ''type NumberType generic.Number'',
      [],
      ''func NumberTypeMax(a, b NumberType) NumberType {'',
      [CHR 0x09] @ ''if a > b {'',
      [CHR 0x09, CHR 0x09] @ ''return a'',
      [CHR 0x09] @ ''}'',
      [CHR 0x09] @ ''return b'',
      ''}''])"

definition numbersFile :: astFile where
  "numbersFile =
     [GenDecl [OtherSpec],
      GenDecl [TypeSpec ''NumberType'' (SelectorExpr (Ident ''generic'') ''Number'')],
      OtherDecl]"

text \<open>Modelled from the spec: the template \<^verbatim>\<open>pair/pair.go\<close> that \<^verbatim>\<open>main.go\<close> names in its
  \<^verbatim>\<open>go:generate\<close> line is not among the sources. The spec describes it: it declares the
  placeholders \<^verbatim>\<open>FirstType\<close> and \<^verbatim>\<open>SecondType\<close> and uses them in a \<^verbatim>\<open>Pair\<close> struct with the
  fields \<^verbatim>\<open>Left\<close> and \<^verbatim>\<open>Right\<close>; \<^verbatim>\<open>main.go\<close> uses the generated type under the name
  \<^verbatim>\<open>PairPersonDog\<close>, so the struct is \<^verbatim>\<open>PairFirstTypeSecondType\<close>. The import paths are those
  of the \<^verbatim>\<open>go:generate\<close> line.\<close>

definition pairTemplate :: string where
  "pairTemplate = concat (map Sprintln
     [''package pair'',
      [],
      ''import '' @ [CHR 0x22] @ ''github.com/CanDIG/genny/generic'' @ [CHR 0x22],
      [],
      ''type FirstType generic.Type'',
      [],
      ''type SecondType generic.Type'',
      [],
      ''type PairFirstTypeSecondType struct {'',
      [CHR 0x09] @ ''Left  FirstType'',
      [CHR 0x09] @ ''Right SecondType'',
      ''}''])"

definition pairFile :: astFile where
  "pairFile =
     [GenDecl [OtherSpec],
      GenDecl [TypeSpec ''FirstType'' (SelectorExpr (Ident ''generic'') ''Type'')],
      GenDecl [TypeSpec ''SecondType'' (SelectorExpr (Ident ''generic'') ''Type'')],
      GenDecl [TypeSpec ''PairFirstTypeSecondType'' OtherExpr]]"

definition pairImports :: "string list" where
  "pairImports =
     [''github.com/CanDIG/genny/examples/user-defined-types/person'',
      ''github.com/CanDIG/genny/examples/user-defined-types/pet'']"

text \<open>A template with an interface that mentions no generic type.\<close>

definition stringerTemplate :: string where
  "stringerTemplate = concat (map Sprintln
     [''package x'',
      ''type T generic.Type'',
      ''type Stringer interface {'',
      [CHR 0x09] @ ''String() string'',
      ''}'',
      ''func show(v T) {}''])"

definition stringerFile :: astFile where
  "stringerFile =
     [GenDecl [TypeSpec ''T'' (SelectorExpr (Ident ''generic'') ''Type'')],
      GenDecl [TypeSpec ''Stringer'' OtherExpr],
      OtherDecl]"

text \<open>A template with two placeholders, the name of one inside the name of the other.\<close>

definition keyTemplate :: string where
  "keyTemplate = concat (map Sprintln
     [''package m'',
      ''type KeyType generic.Type'',
      ''type Type generic.Type'',
      ''var k KeyType''])"

definition keyFile :: astFile where
  "keyFile =
     [GenDecl [TypeSpec ''KeyType'' (SelectorExpr (Ident ''generic'') ''Type'')],
      GenDecl [TypeSpec ''Type'' (SelectorExpr (Ident ''generic'') ''Type'')],
      GenDecl [OtherSpec]]"


section \<open>Facts about the library functions\<close>

lemma indexOf_single_None: "indexOf s [c] = None \<longleftrightarrow> c \<notin> set s"
  by (induction s) auto

lemma indexOf_single_Some: "indexOf s [c] = Some n \<Longrightarrow> take n s = takeWhile (\<lambda>x. x \<noteq> c) s"
  by (induction s arbitrary: n) (auto split: if_splits)

lemma Index_colon_nonneg: "Index s '':'' \<ge> 0 \<longleftrightarrow> CHR '':'' \<in> set s"
  using indexOf_single_None [of s "CHR '':''"]
  by (auto simp: Index_def split: option.splits)

lemma take_Index_colon:
  "CHR '':'' \<in> set s \<Longrightarrow> take (nat (Index s '':'')) s = takeWhile (\<lambda>x. x \<noteq> CHR '':'') s"
  using indexOf_single_None [of s "CHR '':''"] indexOf_single_Some [of s "CHR '':''"]
  by (auto simp: Index_def split: option.splits)

lemma replaceFrom_dot: "replaceFrom 0 s ''.'' [] = filter (\<lambda>c. c \<noteq> CHR ''.'') s"
  by (induction s) auto

lemma strip_eq: "ReplaceAll (TrimLeft (TrimRight s ''{}'') ''*&'') ''.'' [] = stripDecoration s"
  by (simp add: ReplaceAll_def replaceFrom_dot TrimLeft_def TrimRight_def stripDecoration_def)

section \<open>wordify\<close>

lemma wordify_eq:
  "wordify s exported =
     (if CHR '':'' \<in> set s then Inr (takeWhile (\<lambda>c. c \<noteq> CHR '':'') s)
      else if \<not> exported then Inr (stripDecoration s)
      else (case stripDecoration s of
              [] \<Rightarrow> Inl panicIndexOutOfRange
            | c # cs \<Rightarrow> Inr (ToUpperByte c @ cs)))"
  unfolding wordify_def Let_def strip_eq
  by (simp add: Index_colon_nonneg take_Index_colon)

text \<open>C10, as stated: a spec without a label that is empty after stripping makes
  \<^verbatim>\<open>wordify\<close> index an empty string. It does not when \<open>exported\<close> is false: the empty spec
  is returned as it is.\<close>

theorem wordify_empty_unexported: "wordify [] False = Inr []"
  by code_simp

text \<open>C10, amended: \<^verbatim>\<open>wordify\<close> panics (index 0 of an empty string) exactly when
  \<open>exported\<close> is true and the spec has no label and is empty after stripping the braces at
  its end, the \<open>*\<close> and \<open>&\<close> at its start and its dots. In every other case it returns:
  on a labeled spec, with \<open>exported\<close> false, and on a spec that keeps a character.\<close>

theorem wordify_fault_iff:
  "wordify s exported = Inl e \<longleftrightarrow>
     (e = panicIndexOutOfRange \<and> exported \<and> CHR '':'' \<notin> set s \<and> stripDecoration s = [])"
  by (auto simp: wordify_eq split: list.splits)

theorem wordify_fault_witness:
  "wordify ''*{}'' True = Inl panicIndexOutOfRange
     \<and> wordify ''*pet.Dog{}'' True \<noteq> Inl panicIndexOutOfRange"
  using wordify_fault_iff [of "''*{}''" True panicIndexOutOfRange]
        wordify_fault_iff [of "''*pet.Dog{}''" True panicIndexOutOfRange]
  by (simp add: stripDecoration_def)

section \<open>The check of the bindings\<close>

lemma checkSpecs_find:
  "checkSpecs specs ts =
     map_option errMissingSpecificType
       (find (\<lambda>n. n \<notin> fst ` set ts) (map specName (filter isPlaceholderSpec specs)))"
  by (induction specs ts rule: checkSpecs.induct)
     (auto simp: genericPackage_def map_of_eq_None_iff)

lemma find_append_case:
  "find P (xs @ ys) = (case find P xs of Some x \<Rightarrow> Some x | None \<Rightarrow> find P ys)"
  by (induction xs) auto

lemma checkDecls_find:
  "checkDecls f ts = map_option errMissingSpecificType (firstUnbound f ts)"
  unfolding firstUnbound_def declaredPlaceholders_def
  by (induction f ts rule: checkDecls.induct)
     (auto simp: checkSpecs_find find_append_case split: option.splits)









section \<open>The loop over the occurrences in a word\<close>

lemma indexOf_Some_le: "indexOf s t = Some j \<Longrightarrow> j + length t \<le> length s"
proof (induction s arbitrary: j)
  case Nil
  then show ?case by (auto split: if_splits)
next
  case (Cons c cs)
  show ?case
  proof (cases "prefix t (c # cs)")
    case True
    with Cons.prems have "j = 0" by simp
    with True show ?thesis using prefix_length_le by fastforce
  next
    case False
    with Cons.prems obtain k where "indexOf cs t = Some k" "j = Suc k" by auto
    with Cons.IH show ?thesis by fastforce
  qed
qed

lemma alnum_not_star: "isAlphaNumeric c \<Longrightarrow> c \<notin> set ''*&''"
  by (auto simp: isAlphaNumeric_def IsLetter_def IsDigit_def)

lemma partial_TrimLeft_nonempty:
  assumes found: "indexOf (drop i word) t = Some j"
    and partial: "(j > 0 \<and> isAlphaNumeric (word ! (j - 1))) \<or>
                  (j < length word - length t \<and> isAlphaNumeric (word ! (j + length t)))"
  shows "TrimLeft word ''*&'' \<noteq> []"
proof -
  from indexOf_Some_le [OF found] have len: "j + length t \<le> length word" by simp
  from partial obtain k where k: "k < length word" "isAlphaNumeric (word ! k)"
  proof
    assume "j > 0 \<and> isAlphaNumeric (word ! (j - 1))"
    with len have "j - 1 < length word" "isAlphaNumeric (word ! (j - 1))" by auto
    then show ?thesis by (rule that)
  next
    assume "j < length word - length t \<and> isAlphaNumeric (word ! (j + length t))"
    then have "j + length t < length word" "isAlphaNumeric (word ! (j + length t))" by auto
    then show ?thesis by (rule that)
  qed
  then have "word ! k \<in> set word" "word ! k \<notin> set ''*&''"
    using alnum_not_star by (auto simp del: set_simps)
  then have "\<not> (\<forall>x \<in> set word. x \<in> set ''*&'')" by blast
  then show ?thesis unfolding TrimLeft_def dropWhile_eq_Nil_conv by blast
qed

lemma replaceLoop_notfound:
  "indexOf (drop i word) t = None \<Longrightarrow> replaceLoop t sp word i = Some (Inr word)"
  by (subst replaceLoop.simps) simp

lemma replaceLoop_exact:
  assumes "indexOf (drop i word) t = Some j"
    and "\<not> ((j > 0 \<and> isAlphaNumeric (word ! (j - 1))) \<or>
            (j < length word - length t \<and> isAlphaNumeric (word ! (j + length t))))"
  shows "replaceLoop t sp word i = replaceLoop t sp (Replace1 word t (typify sp)) j"
  using assms by (subst replaceLoop.simps) auto

lemma replaceLoop_partial:
  assumes "indexOf (drop i word) t = Some j"
    and "(j > 0 \<and> isAlphaNumeric (word ! (j - 1))) \<or>
         (j < length word - length t \<and> isAlphaNumeric (word ! (j + length t)))"
    and "TrimLeft word ''*&'' = c # r"
  shows "replaceLoop t sp word i =
           (case wordify sp (IsUpper c) of
              Inl e \<Rightarrow> Some (Inl e)
            | Inr w \<Rightarrow> replaceLoop t sp (Replace1 word t w) j)"
  using assms by (subst replaceLoop.simps) simp


text \<open>C5, as stated: the replacement of a partial match starts with a lower-case letter when
  the identifier around it is unexported, whatever the casing of the binding. Here the word
  \<^verbatim>\<open>myTypeList\<close> is unexported, and the binding \<^verbatim>\<open>Foo\<close> is inserted with its capital.\<close>

theorem partial_match_keeps_binding_case:
  "replaceLoop ''Type'' ''Foo'' ''myTypeList'' 0 = Some (Inr ''myFooList'')"
  by code_simp

text \<open>C5, amended: on a partial match (a neighbour of the offset found is alphanumeric or
  \<open>_\<close>) the word has a first byte \<open>c\<close> after its leading \<open>*\<close> and \<open>&\<close>, and the first
  occurrence of the placeholder in the word is replaced by: the label as it is written when
  the spec has one (nothing stripped, no letter changed); else the spec stripped of its
  decoration, as it is when \<open>c\<close> is not an upper-case letter, and with its first byte
  upper-cased when \<open>c\<close> is one (a panic when nothing is left of the spec).\<close>

theorem partial_match_wordified:
  assumes found: "indexOf (drop i word) t = Some j"
    and partial: "(j > 0 \<and> isAlphaNumeric (word ! (j - 1))) \<or>
                  (j < length word - length t \<and> isAlphaNumeric (word ! (j + length t)))"
  shows "\<exists>c r. TrimLeft word ''*&'' = c # r \<and>
           replaceLoop t specificType word i =
             (if CHR '':'' \<in> set specificType
                then replaceLoop t specificType
                       (Replace1 word t (takeWhile (\<lambda>x. x \<noteq> CHR '':'') specificType)) j
              else if \<not> IsUpper c
                then replaceLoop t specificType (Replace1 word t (stripDecoration specificType)) j
              else (case stripDecoration specificType of
                      [] \<Rightarrow> Some (Inl panicIndexOutOfRange)
                    | d # ds \<Rightarrow>
                        replaceLoop t specificType (Replace1 word t (ToUpperByte d @ ds)) j))"
proof -
  from partial_TrimLeft_nonempty [OF found partial]
  obtain c r where cr: "TrimLeft word ''*&'' = c # r" by (cases "TrimLeft word ''*&''") auto
  show ?thesis
    using replaceLoop_partial [OF found partial cr, of specificType] cr
    by (auto simp: wordify_eq split: list.splits)
qed

theorem partial_match_wordified_witness:
  "replaceLoop ''NumberType'' ''*pkg.num{}'' ''*NumberTypeMax(a,'' 0
     = replaceLoop ''NumberType'' ''*pkg.num{}'' ''*PkgnumMax(a,'' 1"
proof -
  have found: "indexOf (drop 0 ''*NumberTypeMax(a,'') ''NumberType'' = Some 1"
    by simp
  have partial:
    "(1 > (0::nat) \<and> isAlphaNumeric (''*NumberTypeMax(a,'' ! (1 - 1))) \<or>
     (1 < length ''*NumberTypeMax(a,'' - length ''NumberType'' \<and>
      isAlphaNumeric (''*NumberTypeMax(a,'' ! (1 + length ''NumberType'')))"
    by (simp add: isAlphaNumeric_def IsLetter_def)
  have up: "ToUpperByte CHR ''p'' = ''P''"
    by code_simp
  from partial_match_wordified [OF found partial, of "''*pkg.num{}''"]
  show ?thesis
    by (simp add: TrimLeft_def IsUpper_def stripDecoration_def Replace1_def up)
qed


section \<open>The binding of \<open>Type\<close> to \<open>Foo\<close>\<close>

lemma ToUpperByte_F: "ToUpperByte CHR ''F'' = ''F''"
  by code_simp

lemma wordify_Foo: "wordify ''Foo'' b = Inr ''Foo''"
  by (cases b) (simp_all add: wordify_eq stripDecoration_def ToUpperByte_F)

lemma typify_Foo: "typify ''Foo'' = ''Foo''"
  by (simp add: typify_def Index_def)

lemma replaceLoop_Type_Foo_step:
  assumes found: "indexOf (drop i word) ''Type'' = Some j"
  shows "replaceLoop ''Type'' ''Foo'' word i
           = replaceLoop ''Type'' ''Foo'' (Replace1 word ''Type'' ''Foo'') j"
proof (cases "(j > 0 \<and> isAlphaNumeric (word ! (j - 1))) \<or>
              (j < length word - length ''Type'' \<and> isAlphaNumeric (word ! (j + length ''Type'')))")
  case True
  from partial_TrimLeft_nonempty [OF found True]
  obtain c r where cr: "TrimLeft word ''*&'' = c # r" by (cases "TrimLeft word ''*&''") auto
  show ?thesis
    using replaceLoop_partial [OF found True cr, of "''Foo''"] by (simp add: wordify_Foo)
next
  case False
  show ?thesis
    using replaceLoop_exact [OF found False, of "''Foo''"] by (simp add: typify_Foo)
qed

lemma indexOf_Some_first:
  "indexOf s t = Some p \<Longrightarrow> prefix t (drop p s) \<and> (\<forall>q<p. \<not> prefix t (drop q s))"
proof (induction s arbitrary: p)
  case Nil
  then show ?case by (auto split: if_splits)
next
  case (Cons c cs)
  show ?case
  proof (cases "prefix t (c # cs)")
    case True
    with Cons.prems show ?thesis by simp
  next
    case False
    with Cons.prems obtain k where k: "indexOf cs t = Some k" "p = Suc k" by auto
    from Cons.IH [OF k(1)] have ih: "prefix t (drop k cs)" "\<forall>q<k. \<not> prefix t (drop q cs)"
      by auto
    have "\<not> prefix t (drop q (c # cs))" if "q < p" for q
      using that False ih(2) k(2) by (cases q) auto
    with ih(1) k(2) show ?thesis by simp
  qed
qed

lemma indexOf_None_none:
  "indexOf s t = None \<Longrightarrow> \<not> prefix t (drop q s)"
proof (induction s arbitrary: q)
  case Nil
  then show ?case by (auto split: if_splits)
next
  case (Cons c cs)
  then show ?case by (cases q) (auto split: if_splits)
qed

lemma indexOf_first_eq:
  assumes "prefix t (drop p s)" "p \<le> length s" "\<forall>q<p. \<not> prefix t (drop q s)"
  shows "indexOf s t = Some p"
proof (cases "indexOf s t")
  case None
  with indexOf_None_none assms(1) show ?thesis by blast
next
  case (Some k)
  from indexOf_Some_first [OF Some] have k: "prefix t (drop k s)" "\<forall>q<k. \<not> prefix t (drop q s)"
    by auto
  with assms have "k = p" by (meson linorder_neqE_nat)
  with Some show ?thesis by simp
qed

lemma replaceFrom_skip: "replaceFrom k s t r = replaceFrom 0 (drop k s) t r"
  by (induction k s t r rule: replaceFrom.induct) auto

lemma replaceFrom_copy:
  assumes "\<forall>q<p. \<not> prefix t (drop q s)" "p \<le> length s"
  shows "replaceFrom 0 s t r = take p s @ replaceFrom 0 (drop p s) t r"
  using assms
proof (induction p arbitrary: s)
  case 0
  then show ?case by simp
next
  case (Suc p)
  then obtain c cs where s: "s = c # cs" by (cases s) auto
  from Suc.prems(1) have "\<not> prefix t (drop 0 s)" by blast
  then have np: "\<not> prefix t (c # cs)" by (simp add: s)
  have "\<forall>q<p. \<not> prefix t (drop q cs)"
    using Suc.prems(1) s by (metis Suc_less_eq drop_Suc_Cons)
  from Suc.IH [OF this] Suc.prems(2) s np show ?case by simp
qed

lemma replaceFrom_hit:
  assumes "prefix t s" "t \<noteq> []"
  shows "replaceFrom 0 s t r = r @ replaceFrom 0 (drop (length t) s) t r"
proof -
  from assms obtain c cs where s: "s = c # cs" by (cases s) auto
  have "replaceFrom (length t - 1) cs t r = replaceFrom 0 (drop (length t - 1) cs) t r"
    by (rule replaceFrom_skip)
  moreover have "drop (length t - 1) cs = drop (length t) s"
    using assms(2) s by (cases t) auto
  ultimately show ?thesis using assms(1) s by simp
qed


lemma Type_not_across_Foo:
  assumes "u \<noteq> []" "prefix ''Type'' (u @ ''Foo'' @ rest)"
  shows "prefix ''Type'' u"
  using assms
  by (auto simp: prefix_append prefix_Cons append_eq_Cons_conv Cons_eq_append_conv)

lemma no_Type_before_after_Replace1:
  assumes nb: "\<forall>q<p. \<not> prefix ''Type'' (drop q w)" and p: "p \<le> length w"
  shows "\<forall>q<p. \<not> prefix ''Type'' (drop q (take p w @ ''Foo'' @ rest))"
proof (intro allI impI notI)
  fix q assume q: "q < p" and pre: "prefix ''Type'' (drop q (take p w @ ''Foo'' @ rest))"
  let ?u = "drop q (take p w)"
  from q p have u: "?u \<noteq> []" by simp
  from q p have "drop q (take p w @ ''Foo'' @ rest) = ?u @ ''Foo'' @ rest" by simp
  with pre have "prefix ''Type'' (?u @ ''Foo'' @ rest)" by simp
  from Type_not_across_Foo [OF u this] have "prefix ''Type'' ?u" .
  moreover have "prefix ?u (drop q w)"
    by (metis drop_take take_is_prefix)
  ultimately have "prefix ''Type'' (drop q w)" by (rule prefix_order.trans)
  with nb q show False by blast
qed


lemma ReplaceAll_Foo_head:
  "replaceFrom 0 (''Foo'' @ rest) ''Type'' ''Foo'' = ''Foo'' @ replaceFrom 0 rest ''Type'' ''Foo''"
  by simp

lemma ReplaceAll_first:
  assumes "indexOf w ''Type'' = Some p"
  shows "ReplaceAll w ''Type'' ''Foo''
           = take p w @ ''Foo'' @ ReplaceAll (drop (p + length ''Type'') w) ''Type'' ''Foo''"
proof -
  from indexOf_Some_first [OF assms] indexOf_Some_le [OF assms]
  have f: "prefix ''Type'' (drop p w)" "\<forall>q<p. \<not> prefix ''Type'' (drop q w)" "p \<le> length w"
    by auto
  have "replaceFrom 0 w ''Type'' ''Foo'' = take p w @ replaceFrom 0 (drop p w) ''Type'' ''Foo''"
    using f(2,3) by (rule replaceFrom_copy)
  also have "replaceFrom 0 (drop p w) ''Type'' ''Foo''
               = ''Foo'' @ replaceFrom 0 (drop (length ''Type'') (drop p w)) ''Type'' ''Foo''"
    using f(1) by (rule replaceFrom_hit) simp
  finally show ?thesis by (simp add: ReplaceAll_def add.commute)
qed

lemma ReplaceAll_after_Replace1:
  assumes "indexOf w ''Type'' = Some p"
  shows "ReplaceAll (Replace1 w ''Type'' ''Foo'') ''Type'' ''Foo'' = ReplaceAll w ''Type'' ''Foo''"
proof -
  let ?rest = "drop (p + length ''Type'') w"
  from indexOf_Some_first [OF assms] indexOf_Some_le [OF assms]
  have f: "\<forall>q<p. \<not> prefix ''Type'' (drop q w)" "p \<le> length w"
    by auto
  have r: "Replace1 w ''Type'' ''Foo'' = take p w @ ''Foo'' @ ?rest"
    using assms by (simp add: Replace1_def)
  have nb: "\<forall>q<p. \<not> prefix ''Type'' (drop q (take p w @ ''Foo'' @ ?rest))"
    using f by (rule no_Type_before_after_Replace1)
  have "replaceFrom 0 (take p w @ ''Foo'' @ ?rest) ''Type'' ''Foo''
          = take p (take p w @ ''Foo'' @ ?rest)
            @ replaceFrom 0 (drop p (take p w @ ''Foo'' @ ?rest)) ''Type'' ''Foo''"
    using nb f(2) by (intro replaceFrom_copy) simp_all
  also have "\<dots> = take p w @ replaceFrom 0 (''Foo'' @ ?rest) ''Type'' ''Foo''"
    using f(2) by simp
  also have "\<dots> = take p w @ ''Foo'' @ replaceFrom 0 ?rest ''Type'' ''Foo''"
    by (simp only: ReplaceAll_Foo_head)
  finally show ?thesis
    using ReplaceAll_first [OF assms] by (simp add: r ReplaceAll_def)
qed

lemma indexOf_from:
  assumes "indexOf (drop i w) t = Some j" "\<forall>q<i. \<not> prefix t (drop q w)" "i \<le> length w"
  shows "indexOf w t = Some (i + j)"
proof (rule indexOf_first_eq)
  from indexOf_Some_first [OF assms(1)]
  have a: "prefix t (drop j (drop i w))" "\<forall>q<j. \<not> prefix t (drop q (drop i w))" by auto
  from a(1) show "prefix t (drop (i + j) w)" by (simp add: add.commute)
  from indexOf_Some_le [OF assms(1)] assms(3) show "i + j \<le> length w" by simp
  show "\<forall>q<i + j. \<not> prefix t (drop q w)"
  proof (intro allI impI)
    fix q assume "q < i + j"
    show "\<not> prefix t (drop q w)"
    proof (cases "q < i")
      case True
      with assms(2) show ?thesis by blast
    next
      case False
      with \<open>q < i + j\<close> have "q - i < j" by simp
      with a(2) have "\<not> prefix t (drop (q - i) (drop i w))" by blast
      with False show ?thesis by simp
    qed
  qed
qed

lemma ReplaceAll_none:
  assumes "indexOf w t = None"
  shows "ReplaceAll w t r = w"
proof -
  have "\<forall>q<length w. \<not> prefix t (drop q w)" using indexOf_None_none [OF assms] by blast
  from replaceFrom_copy [OF this, of r] show ?thesis by (simp add: ReplaceAll_def)
qed

lemma indexOf_None_from:
  assumes "indexOf (drop i w) t = None" "\<forall>q<i. \<not> prefix t (drop q w)"
  shows "indexOf w t = None"
proof (cases "indexOf w t")
  case None
  then show ?thesis .
next
  case (Some p)
  from indexOf_Some_first [OF Some] have p: "prefix t (drop p w)" by simp
  with assms(2) have "\<not> p < i" by blast
  then have "drop p w = drop (p - i) (drop i w)" by simp
  with p indexOf_None_none [OF assms(1), of "p - i"] show ?thesis by simp
qed

lemma replaceLoop_Type_Foo_all:
  assumes "\<forall>q<i. \<not> prefix ''Type'' (drop q w)" "i \<le> length w"
  shows "replaceLoop ''Type'' ''Foo'' w i = Some (Inr (ReplaceAll w ''Type'' ''Foo''))"
  using assms
proof (induction "length w" arbitrary: w i rule: less_induct)
  case less
  show ?case
  proof (cases "indexOf (drop i w) ''Type''")
    case None
    from indexOf_None_from [OF None less.prems(1)] have "ReplaceAll w ''Type'' ''Foo'' = w"
      by (rule ReplaceAll_none)
    with None show ?thesis by (simp add: replaceLoop_notfound)
  next
    case (Some j)
    let ?w' = "Replace1 w ''Type'' ''Foo''"
    from indexOf_from [OF Some less.prems] have p: "indexOf w ''Type'' = Some (i + j)" .
    from indexOf_Some_first [OF p] indexOf_Some_le [OF p]
    have f: "\<forall>q<i + j. \<not> prefix ''Type'' (drop q w)" "i + j + length ''Type'' \<le> length w"
      by auto
    have r: "?w' = take (i + j) w @ ''Foo'' @ drop (i + j + length ''Type'') w"
      using p by (simp add: Replace1_def)
    have len: "length ?w' < length w" "j \<le> length ?w'"
      using f(2) by (simp_all add: r)
    have "\<forall>q<i + j. \<not> prefix ''Type'' (drop q ?w')"
      unfolding r using f by (intro no_Type_before_after_Replace1) simp_all
    then have nb: "\<forall>q<j. \<not> prefix ''Type'' (drop q ?w')" by simp
    have "replaceLoop ''Type'' ''Foo'' w i = replaceLoop ''Type'' ''Foo'' ?w' j"
      using Some by (rule replaceLoop_Type_Foo_step)
    also have "\<dots> = Some (Inr (ReplaceAll ?w' ''Type'' ''Foo''))"
      using len(1) nb len(2) by (rule less.hyps)
    also have "ReplaceAll ?w' ''Type'' ''Foo'' = ReplaceAll w ''Type'' ''Foo''"
      using p by (rule ReplaceAll_after_Replace1)
    finally show ?thesis .
  qed
qed

lemma replaceWords_result:
  assumes "\<forall>w \<in> set ws. replaceLoop t sp w 0 = Some (Inr (g w))"
  shows "replaceWords t sp ws acc = Some (Inr (acc @ concat (map (\<lambda>w. g w @ space) ws)))"
  using assms by (induction ws arbitrary: acc) auto

text \<open>C3, as stated: with the binding of \<^verbatim>\<open>Type\<close> to \<^verbatim>\<open>Foo\<close> the identifier \<^verbatim>\<open>TypeScript\<close> is
  left as it is. It is not: \<^verbatim>\<open>Type\<close> is followed by a letter there, a partial match, and
  the word becomes \<^verbatim>\<open>FooScript\<close>.\<close>

theorem TypeScript_rewritten:
  "replaceTypes [(''Type'', ''Foo'')] ''var ts TypeScript'' = Some (Inr ''var ts FooScript '')"
  by code_simp

text \<open>C3, amended: with the binding of \<^verbatim>\<open>Type\<close> to \<^verbatim>\<open>Foo\<close>, on a line that contains
  \<^verbatim>\<open>Type\<close> every occurrence of \<^verbatim>\<open>Type\<close> in every word is replaced by \<^verbatim>\<open>Foo\<close>, whether it
  stands alone there or is part of a longer identifier such as \<^verbatim>\<open>TypeScript\<close>; the loop ends
  on every word, and the line is rebuilt from its words, each followed by one space.\<close>

theorem Type_Foo_line:
  assumes "Contains l ''Type''"
  shows "replaceTypes [(''Type'', ''Foo'')] l
           = Some (Inr (concat (map (\<lambda>w. ReplaceAll w ''Type'' ''Foo'' @ '' '') (Fields l))))"
proof -
  have "\<forall>w \<in> set (Fields l). replaceLoop ''Type'' ''Foo'' w 0
           = Some (Inr (ReplaceAll w ''Type'' ''Foo''))"
    by (simp add: replaceLoop_Type_Foo_all)
  from replaceWords_result [OF this, of "[]"] assms
  show ?thesis by (simp add: space_def)
qed

theorem Type_Foo_line_witness:
  "replaceTypes [(''Type'', ''Foo'')] ''var ts TypeScript = f(Type) + map[Type]Type{}''
     = Some (Inr ''var ts FooScript = f(Foo) + map[Foo]Foo{} '')"
proof -
  have c: "Contains ''var ts TypeScript = f(Type) + map[Type]Type{}'' ''Type''"
    by code_simp
  have f: "concat (map (\<lambda>w. ReplaceAll w ''Type'' ''Foo'' @ '' '')
             (Fields ''var ts TypeScript = f(Type) + map[Type]Type{}''))
            = ''var ts FooScript = f(Foo) + map[Foo]Foo{} ''"
    by code_simp
  from Type_Foo_line [OF c] f show ?thesis by simp
qed

section \<open>A placeholder twice in one word\<close>

text \<open>C4: every occurrence of the placeholder in a word is classified by its own neighbours.
  The source stores the offset found in \<^verbatim>\<open>word[i:]\<close> as if it were an offset into \<^verbatim>\<open>word\<close>, so
  from the second occurrence on it looks at the wrong bytes. In \<^verbatim>\<open>map[Type]Type\<close> the second
  \<^verbatim>\<open>Type\<close> stands between \<open>]\<close> and the end of the word, an exact match, and is replaced by
  the label \<^verbatim>\<open>Person\<close> of a partial match instead of the type \<^verbatim>\<open>person.Person\<close>.\<close>

theorem second_occurrence_misclassified:
  "replaceTypes [(''Type'', ''Person:person.Person'')] ''var m map[Type]Type''
     = Some (Inr ''var m map[person.Person]Person '')"
  by code_simp



section \<open>The Pair example\<close>

lemma pair_merged:
  "ts = [(''FirstType'', ''Person:person.Person''), (''SecondType'', ''Dog:pet.Dog'')]
     \<or> ts = [(''SecondType'', ''Dog:pet.Dog''), (''FirstType'', ''Person:person.Person'')]
   \<Longrightarrow> mergeSpecifics (parseAs pairFile) ''pair/pair.go'' pairTemplate [ts] []
     = Some (Inr (header @ concat (map Sprintln
         [''package pair'',
          ''import ('',
          [CHR 0x22] @ ''github.com/CanDIG/genny/generic'' @ [CHR 0x22],
          '')'',
          [], [], [], [],
          ''type PairPersonDog struct { '',
          ''Left person.Person '',
          ''Right pet.Dog '',
          ''}''])))"
  by (erule disjE; hypsubst; code_simp)

lemma pair_renamed:
  "changePackage (header @ concat (map Sprintln
         [''package pair'',
          ''import ('',
          [CHR 0x22] @ ''github.com/CanDIG/genny/generic'' @ [CHR 0x22],
          '')'',
          [], [], [], [],
          ''type PairPersonDog struct { '',
          ''Left person.Person '',
          ''Right pet.Dog '',
          ''}''])) ''main''
   = Inr (header @ concat (map Sprintln
         [''package main'',
          ''import ('',
          [CHR 0x22] @ ''github.com/CanDIG/genny/generic'' @ [CHR 0x22],
          '')'',
          [], [], [], [],
          ''type PairPersonDog struct { '',
          ''Left person.Person '',
          ''Right pet.Dog '',
          ''}'']))"
  by code_simp

lemma pair_imported:
  "addImports (header @ concat (map Sprintln
         [''package main'',
          ''import ('',
          [CHR 0x22] @ ''github.com/CanDIG/genny/generic'' @ [CHR 0x22],
          '')'',
          [], [], [], [],
          ''type PairPersonDog struct { '',
          ''Left person.Person '',
          ''Right pet.Dog '',
          ''}''])) pairImports
   = header @ concat (map Sprintln
         [''package main'',
          ''import '' @ [CHR 0x22] @ ''github.com/CanDIG/genny/examples/user-defined-types/person'' @ [CHR 0x22],
          ''import '' @ [CHR 0x22] @ ''github.com/CanDIG/genny/examples/user-defined-types/pet'' @ [CHR 0x22],
          ''import ('',
          [CHR 0x22] @ ''github.com/CanDIG/genny/generic'' @ [CHR 0x22],
          '')'',
          [], [], [], [],
          ''type PairPersonDog struct { '',
          ''Left person.Person '',
          ''Right pet.Dog '',
          ''}''])"
  by code_simp

lemma pairImports_nonempty: "pairImports \<noteq> []"
  by (simp add: pairImports_def)

text \<open>C6: the Pair template with the binding set of \<^verbatim>\<open>main.go\<close>, \<^verbatim>\<open>FirstType\<close> as
  \<^verbatim>\<open>Person:person.Person\<close> and \<^verbatim>\<open>SecondType\<close> as \<^verbatim>\<open>Dog:pet.Dog\<close>, the package name \<^verbatim>\<open>main\<close> and
  the two import paths: the bytes handed to \<^verbatim>\<open>imports.Process\<close> declare the type
  \<^verbatim>\<open>PairPersonDog\<close> with the field types \<^verbatim>\<open>person.Person\<close> and \<^verbatim>\<open>pet.Dog\<close> (the labels make the
  name, the parts after the colon the types), and \<^verbatim>\<open>Generics\<close> returns what
  \<^verbatim>\<open>imports.Process\<close> makes of them. Both orders in which \<^verbatim>\<open>range\<close> can visit the two
  bindings give the same result.\<close>

theorem pair_person_dog:
  "Generics (parseAs pairFile) process ''pair/pair.go'' ''main'' pairTemplate
     [[(''FirstType'', ''Person:person.Person''), (''SecondType'', ''Dog:pet.Dog'')]] pairImports []
   = Some (case process ''pair/pair.go''
             (header @ concat (map Sprintln
               [''package main'',
                ''import '' @ [CHR 0x22] @ ''github.com/CanDIG/genny/examples/user-defined-types/person'' @ [CHR 0x22],
                ''import '' @ [CHR 0x22] @ ''github.com/CanDIG/genny/examples/user-defined-types/pet'' @ [CHR 0x22],
                ''import ('',
                [CHR 0x22] @ ''github.com/CanDIG/genny/generic'' @ [CHR 0x22],
                '')'',
                [], [], [], [],
                ''type PairPersonDog struct { '',
                ''Left person.Person '',
                ''Right pet.Dog '',
                ''}''])) of
             Inl err \<Rightarrow> Inl (errImports err)
           | Inr out \<Rightarrow> Inr out)
   \<and> Generics (parseAs pairFile) process ''pair/pair.go'' ''main'' pairTemplate
       [[(''SecondType'', ''Dog:pet.Dog''), (''FirstType'', ''Person:person.Person'')]] pairImports []
     = Generics (parseAs pairFile) process ''pair/pair.go'' ''main'' pairTemplate
       [[(''FirstType'', ''Person:person.Person''), (''SecondType'', ''Dog:pet.Dog'')]] pairImports []"
  unfolding Generics_def postProcess_def
  by (simp only: pair_merged pair_renamed pair_imported pairImports_nonempty Let_def
        option.case sum.case if_True if_False simp_thms list.distinct )

section \<open>An interface without generic types\<close>

text \<open>C7: a buffered interface block no line of which mentions a generic type is emitted
  verbatim. \<^verbatim>\<open>generateSpecific\<close> writes such a block when it is closed, but with
  \<^verbatim>\<open>buf.WriteString(li)\<close> where every other line is written with \<^verbatim>\<open>line(...)\<close>, and the
  opening line has been put into the buffer twice: the output has the opening line two times
  and no line end inside or after the block.\<close>

theorem interface_block_not_verbatim:
  "generateSpecific (parseAs stringerFile) ''stringer.go'' stringerTemplate [(''T'', ''int'')]
     = Some (Inr (''package x\<newline>''
         @ ''type Stringer interface {type Stringer interface {'' @ [CHR 0x09] @ ''String() string}''
         @ ''func show(v int) {} \<newline>''))"
  by code_simp



section \<open>Comments held back\<close>

lemma not_reSpace_slash: "\<not> reSpace CHR ''/''"
  by (simp add: reSpace_def)

lemma comment_not_interface:
  assumes "HasPrefix l ''//''"
  shows "\<not> reInterfaceBegin l" "\<not> reInterfaceEnd l"
proof -
  from assms obtain r where l: "l = CHR ''/'' # CHR ''/'' # r"
    by (auto simp: HasPrefix_def prefix_def)
  have d: "dropWhile reSpace l = l"
    by (simp add: l not_reSpace_slash)
  show "\<not> reInterfaceBegin l"
    unfolding reInterfaceBegin_def Let_def d by (simp add: l)
  show "\<not> reInterfaceEnd l"
    unfolding reInterfaceEnd_def d by (simp add: l)
qed

lemma begin_not_end: "reInterfaceBegin l \<Longrightarrow> \<not> reInterfaceEnd l"
  unfolding reInterfaceBegin_def reInterfaceEnd_def Let_def
  by (cases "dropWhile reSpace l") auto

lemma comment_nonempty: "HasPrefix l ''//'' \<Longrightarrow> l \<noteq> []"
  by (auto simp: HasPrefix_def)

lemma scanStep_comment:
  assumes cmt: "HasPrefix l ''//''"
    and notgen: "\<not> Contains l genericType" "\<not> Contains l genericNumber"
    and subst: "replaceTypes typeSet l = Some (Inr l')"
    and still: "HasPrefix l' ''//''"
  shows "scanStep typeSet st l
           = Some (Inr (st\<lparr>buf := buf st @ (if comment st = [] then [] else line (comment st)),
                           comment := l'\<rparr>))"
  using comment_not_interface [OF cmt] notgen subst still
  by (simp add: scanStep_def Let_def)

lemma scanStep_generic:
  assumes gen: "Contains l genericType \<or> Contains l genericNumber"
    and idle: "interfaceLines st = []"
  shows "\<exists>st'. scanStep typeSet st l = Some (Inr st') \<and> buf st' = buf st \<and> comment st' = []"
proof (cases "reInterfaceBegin l")
  case True
  with begin_not_end have "\<not> reInterfaceEnd l" by blast
  with True gen show ?thesis by (auto simp: scanStep_def Let_def)
next
  case False
  with gen idle show ?thesis by (auto simp: scanStep_def Let_def)
qed

lemma scanStep_emit:
  assumes notgen: "\<not> Contains l genericType" "\<not> Contains l genericNumber"
    and subst: "replaceTypes typeSet l = Some (Inr l')"
    and idle: "interfaceLines st = []"
    and held: "comment st = c" "c \<noteq> []"
  shows "\<exists>st'. scanStep typeSet st l = Some (Inr st')
           \<and> buf st' = buf st @ line c
                 @ (if HasPrefix l' ''//'' \<or> reInterfaceBegin l then [] else line l')
           \<and> comment st' = (if HasPrefix l' ''//'' then l' else [])"
proof (cases "reInterfaceBegin l")
  case True
  with begin_not_end have "\<not> reInterfaceEnd l" by blast
  with True notgen subst held show ?thesis by (auto simp: scanStep_def Let_def)
next
  case False
  with notgen subst idle held show ?thesis by (auto simp: scanStep_def Let_def)
qed

text \<open>C8, as stated: every line that is a leading comment is held and written just before
  the next line written. A comment that mentions \<^verbatim>\<open>generic.Type\<close> is not held: the test for
  the generic types comes first and drops the line, so it is never written although the
  line after it is.\<close>

theorem comment_with_generic_dropped:
  "scanLoop [] [''// Box holds a generic.Type value'', ''type Box struct {}''] initState
     = Some (Inr (initState\<lparr>buf := ''type Box struct {}\<newline>''\<rparr>))"
  by code_simp

text \<open>C8, amended: a line that starts with \<open>//\<close>, mentions neither \<^verbatim>\<open>generic.Type\<close> nor
  \<^verbatim>\<open>generic.Number\<close> and still starts with \<open>//\<close> after the substitution, read while no
  interface block is buffered, is held in its substituted form and not written; only a
  comment held before it is written. When the next line \<open>g\<close> mentions \<^verbatim>\<open>generic.Type\<close> or
  \<^verbatim>\<open>generic.Number\<close>, the held comment is discarded and nothing is written. When the next
  line \<open>n\<close> mentions neither, the held comment is written, and right after it the
  substituted line \<open>n\<close>, unless that is a comment, which is held in turn, or opens an
  interface block, which is buffered.\<close>

theorem comment_deferral:
  assumes cmt: "HasPrefix l ''//''"
    and notgen: "\<not> Contains l genericType" "\<not> Contains l genericNumber"
    and subst: "replaceTypes typeSet l = Some (Inr l')"
    and still: "HasPrefix l' ''//''"
    and idle: "interfaceLines st = []"
  shows "\<exists>st1. scanStep typeSet st l = Some (Inr st1)
           \<and> comment st1 = l'
           \<and> buf st1 = buf st @ (if comment st = [] then [] else line (comment st))
           \<and> (Contains g genericType \<or> Contains g genericNumber \<longrightarrow>
                (\<exists>st2. scanStep typeSet st1 g = Some (Inr st2)
                   \<and> buf st2 = buf st1 \<and> comment st2 = []))
           \<and> (\<not> Contains n genericType \<and> \<not> Contains n genericNumber
                \<and> replaceTypes typeSet n = Some (Inr n') \<longrightarrow>
                (\<exists>st2. scanStep typeSet st1 n = Some (Inr st2)
                   \<and> buf st2 = buf st1 @ line l'
                        @ (if HasPrefix n' ''//'' \<or> reInterfaceBegin n then [] else line n')
                   \<and> comment st2 = (if HasPrefix n' ''//'' then n' else [])))"
proof -
  define st1 where
    "st1 = st\<lparr>buf := buf st @ (if comment st = [] then [] else line (comment st)), comment := l'\<rparr>"
  have step: "scanStep typeSet st l = Some (Inr st1)"
    unfolding st1_def by (rule scanStep_comment [OF cmt notgen subst still])
  have idle1: "interfaceLines st1 = []" and c1: "comment st1 = l'"
    and b1: "buf st1 = buf st @ (if comment st = [] then [] else line (comment st))"
    by (simp_all add: st1_def idle)
  have ne: "l' \<noteq> []" by (rule comment_nonempty [OF still])
  have g: "Contains g genericType \<or> Contains g genericNumber \<longrightarrow>
             (\<exists>st2. scanStep typeSet st1 g = Some (Inr st2) \<and> buf st2 = buf st1 \<and> comment st2 = [])"
    using scanStep_generic [OF _ idle1] by blast
  have n: "\<not> Contains n genericType \<and> \<not> Contains n genericNumber
             \<and> replaceTypes typeSet n = Some (Inr n') \<longrightarrow>
             (\<exists>st2. scanStep typeSet st1 n = Some (Inr st2)
                \<and> buf st2 = buf st1 @ line l'
                     @ (if HasPrefix n' ''//'' \<or> reInterfaceBegin n then [] else line n')
                \<and> comment st2 = (if HasPrefix n' ''//'' then n' else []))"
    using scanStep_emit [OF _ _ _ idle1 c1 ne] by blast
  from step c1 b1 g n show ?thesis by blast
qed


theorem comment_deferral_witness:
  "\<exists>st1. scanStep [(''T'', ''int'')] initState ''// show prints a T'' = Some (Inr st1)
      \<and> comment st1 = ''// show prints a int ''
      \<and> buf st1 = []
      \<and> (\<exists>st2. scanStep [(''T'', ''int'')] st1 ''type T generic.Type'' = Some (Inr st2)
            \<and> buf st2 = [] \<and> comment st2 = [])
      \<and> (\<exists>st2. scanStep [(''T'', ''int'')] st1 ''func show(v T) {}'' = Some (Inr st2)
            \<and> buf st2 = ''// show prints a int \<newline>func show(v int) {} \<newline>''
            \<and> comment st2 = [])"
proof -
  have cmt: "HasPrefix ''// show prints a T'' ''//''"
    by code_simp
  have notgen: "\<not> Contains ''// show prints a T'' genericType"
      "\<not> Contains ''// show prints a T'' genericNumber"
    by code_simp+
  have subst: "replaceTypes [(''T'', ''int'')] ''// show prints a T''
                 = Some (Inr ''// show prints a int '')"
    by code_simp
  have still: "HasPrefix ''// show prints a int '' ''//''"
    by code_simp
  have idle: "interfaceLines initState = []"
    by (simp add: initState_def)
  have g: "Contains ''type T generic.Type'' genericType"
    by code_simp
  have n: "\<not> Contains ''func show(v T) {}'' genericType"
      "\<not> Contains ''func show(v T) {}'' genericNumber"
      "replaceTypes [(''T'', ''int'')] ''func show(v T) {}'' = Some (Inr ''func show(v int) {} '')"
      "\<not> HasPrefix ''func show(v int) {} '' ''//''"
      "\<not> reInterfaceBegin ''func show(v T) {}''"
    by code_simp+
  have l: "line ''// show prints a int '' = ''// show prints a int \<newline>''"
      "line ''func show(v int) {} '' = ''func show(v int) {} \<newline>''"
    by code_simp+
  have b: "buf initState = []" "comment initState = []"
    by (simp_all add: initState_def)
  from comment_deferral [OF cmt notgen subst still idle,
      of "''type T generic.Type''" "''func show(v T) {}''" "''func show(v int) {} ''"]
  obtain st1 where s1: "scanStep [(''T'', ''int'')] initState ''// show prints a T'' = Some (Inr st1)"
      "comment st1 = ''// show prints a int ''"
      "buf st1 = buf initState @ (if comment initState = [] then [] else line (comment initState))"
    and s2: "Contains ''type T generic.Type'' genericType
               \<or> Contains ''type T generic.Type'' genericNumber \<longrightarrow>
             (\<exists>st2. scanStep [(''T'', ''int'')] st1 ''type T generic.Type'' = Some (Inr st2)
                \<and> buf st2 = buf st1 \<and> comment st2 = [])"
    and s3: "\<not> Contains ''func show(v T) {}'' genericType
               \<and> \<not> Contains ''func show(v T) {}'' genericNumber
               \<and> replaceTypes [(''T'', ''int'')] ''func show(v T) {}''
                   = Some (Inr ''func show(v int) {} '') \<longrightarrow>
             (\<exists>st2. scanStep [(''T'', ''int'')] st1 ''func show(v T) {}'' = Some (Inr st2)
                \<and> buf st2 = buf st1 @ line ''// show prints a int ''
                     @ (if HasPrefix ''func show(v int) {} '' ''//''
                           \<or> reInterfaceBegin ''func show(v T) {}''
                        then [] else line ''func show(v int) {} '')
                \<and> comment st2 = (if HasPrefix ''func show(v int) {} '' ''//''
                                  then ''func show(v int) {} '' else []))"
    by blast
  from s1(3) b have b1: "buf st1 = []" by simp
  from s2 g b1 have t2: "\<exists>st2. scanStep [(''T'', ''int'')] st1 ''type T generic.Type'' = Some (Inr st2)
                \<and> buf st2 = [] \<and> comment st2 = []"
    by simp
  from s3 n l b1 have t3: "\<exists>st2. scanStep [(''T'', ''int'')] st1 ''func show(v T) {}'' = Some (Inr st2)
            \<and> buf st2 = ''// show prints a int \<newline>func show(v int) {} \<newline>''
            \<and> comment st2 = []"
    by simp
  from s1(1,2) b1 t2 t3 show ?thesis by blast
qed



section \<open>The merged file\<close>





























section \<open>The order in which the bindings are visited\<close>

lemma wordify_only_panics: "wordify s b = Inl e \<Longrightarrow> e = panicIndexOutOfRange"
  by (auto simp: wordify_eq split: if_splits list.splits)

lemma replaceLoop_result_panics:
  assumes "replaceLoop t sp w i = Some y"
  shows "\<forall>e. y = Inl e \<longrightarrow> e = panicIndexOutOfRange"
proof (rule replaceLoop.raw_induct
    [where P = "\<lambda>t sp w i y. \<forall>e. y = Inl e \<longrightarrow> e = panicIndexOutOfRange", OF _ assms])
  fix f t sp w i y
  assume IH: "\<And>t sp w i y. f t sp w i = Some y \<Longrightarrow> \<forall>e. y = Inl e \<longrightarrow> e = panicIndexOutOfRange"
    and body: "(case indexOf (drop i w) t of
        None \<Rightarrow> Some (Inr w)
      | Some j \<Rightarrow>
          if 0 < j \<and> isAlphaNumeric (w ! (j - 1)) \<or>
             j < length w - length t \<and> isAlphaNumeric (w ! (j + length t))
          then case TrimLeft w ''*&'' of
                 [] \<Rightarrow> Some (Inl panicIndexOutOfRange)
               | c # x \<Rightarrow>
                   (case wordify sp (IsUpper c) of
                      Inl e \<Rightarrow> Some (Inl e)
                    | Inr r \<Rightarrow> f t sp (Replace1 w t r) j)
          else f t sp (Replace1 w t (typify sp)) j) = Some y"
  show "\<forall>e. y = Inl e \<longrightarrow> e = panicIndexOutOfRange"
    using body IH
    by (auto split: option.splits if_splits list.splits sum.splits dest: wordify_only_panics)
qed

lemma replaceLoop_only_panics:
  "replaceLoop t sp w i = Some (Inl e) \<Longrightarrow> e = panicIndexOutOfRange"
  using replaceLoop_result_panics by blast

lemma replaceWords_only_panics:
  "replaceWords t sp ws acc = Some (Inl e) \<Longrightarrow> e = panicIndexOutOfRange"
  by (induction ws arbitrary: acc)
     (auto split: option.splits sum.splits dest: replaceLoop_only_panics)

lemma replaceTypes_only_panics:
  "replaceTypes ts l = Some (Inl e) \<Longrightarrow> e = panicIndexOutOfRange"
  by (induction ts l rule: replaceTypes.induct)
     (auto split: option.splits sum.splits if_splits dest: replaceWords_only_panics)

lemma scanStep_only_panics:
  "scanStep ts st l = Some (Inl e) \<Longrightarrow> e = panicIndexOutOfRange"
  by (auto simp: scanStep_def Let_def split: option.splits sum.splits if_splits
        dest: replaceTypes_only_panics)

lemma scanLoop_only_panics:
  "scanLoop ts ls st = Some (Inl e) \<Longrightarrow> e = panicIndexOutOfRange"
  by (induction ls arbitrary: st)
     (auto split: option.splits sum.splits dest: scanStep_only_panics)

lemma checkDecls_map_of:
  assumes "map_of ts1 = map_of ts2"
  shows "checkDecls f ts1 = checkDecls f ts2"
proof -
  have "dom (map_of ts1) = dom (map_of ts2)" using assms by simp
  then have "fst ` set ts1 = fst ` set ts2" by (simp only: dom_map_of_conv_image_fst)
  then show ?thesis by (simp add: checkDecls_find firstUnbound_def)
qed

lemma generateSpecific_error:
  assumes "e \<noteq> panicIndexOutOfRange"
  shows "generateSpecific parse filename inp ts = Some (Inl e) \<longleftrightarrow>
           (case parse filename inp of
              Inl d \<Rightarrow> e = errSource d
            | Inr f \<Rightarrow> checkDecls f ts = Some e)"
  using assms
  by (auto simp: generateSpecific_def split: sum.splits option.splits
        dest: scanLoop_only_panics)

text \<open>C9, as stated: the result does not depend on the order in which the placeholders of a
  binding set are visited. With the placeholders \<^verbatim>\<open>Type\<close> and \<^verbatim>\<open>KeyType\<close> it does: visited
  first, \<^verbatim>\<open>Type\<close> rewrites the end of \<^verbatim>\<open>KeyType\<close>.\<close>

theorem range_order_changes_output:
  "generateSpecific (parseAs keyFile) ''m.go'' keyTemplate
     [(''Type'', ''int''), (''KeyType'', ''string'')]
     = Some (Inr ''package m\<newline>var k KeyInt \<newline>'')
   \<and> generateSpecific (parseAs keyFile) ''m.go'' keyTemplate
     [(''KeyType'', ''string''), (''Type'', ''int'')]
     = Some (Inr ''package m\<newline>var k string \<newline>'')"
  by code_simp

text \<open>C9, amended: the call is a function of its inputs and of the order in which
  \<^verbatim>\<open>range\<close> visits each binding set. Two visiting orders of the same map agree on whether
  \<^verbatim>\<open>generateSpecific\<close> fails with \<^verbatim>\<open>errMissingSpecificType\<close> or \<^verbatim>\<open>errSource\<close>, and on the
  placeholder or diagnostic reported; the bytes written may differ.\<close>

theorem errors_independent_of_range_order:
  assumes "map_of ts1 = map_of ts2"
  shows "(generateSpecific parse filename inp ts1 = Some (Inl (errMissingSpecificType n))
            \<longleftrightarrow> generateSpecific parse filename inp ts2 = Some (Inl (errMissingSpecificType n)))
         \<and> (generateSpecific parse filename inp ts1 = Some (Inl (errSource d))
            \<longleftrightarrow> generateSpecific parse filename inp ts2 = Some (Inl (errSource d)))"
  by (cases "parse filename inp") (simp_all add: generateSpecific_error checkDecls_map_of [OF assms])

theorem errors_independent_of_range_order_witness:
  "map_of [(''Type'', ''int''), (''KeyType'', ''string'')]
     = map_of [(''KeyType'', ''string''), (''Type'', ''int'')]
   \<and> generateSpecific (parseAs numbersFile) ''generic_number.go'' numbersTemplate
       [(''Type'', ''int''), (''KeyType'', ''string'')]
       = Some (Inl (errMissingSpecificType ''NumberType''))
   \<and> generateSpecific (parseAs numbersFile) ''generic_number.go'' numbersTemplate
       [(''KeyType'', ''string''), (''Type'', ''int'')]
       = Some (Inl (errMissingSpecificType ''NumberType''))"
proof -
  have m: "map_of [(''Type'', ''int''), (''KeyType'', ''string'')]
             = map_of [(''KeyType'', ''string''), (''Type'', ''int'')]"
    by (rule ext) simp
  have g: "generateSpecific (parseAs numbersFile) ''generic_number.go'' numbersTemplate
             [(''Type'', ''int''), (''KeyType'', ''string'')]
             = Some (Inl (errMissingSpecificType ''NumberType''))"
    by code_simp
  from errors_independent_of_range_order [OF m, of "parseAs numbersFile" "''generic_number.go''"
      numbersTemplate "''NumberType''"] m g
  show ?thesis by simp
qed


end
